theory Spec2Isabelle
  imports Main "HOL-Library.Sublist"
begin

section \<open>JavaScript values received through \<open>any\<close>\<close>

text \<open>
  Response bodies, error objects and the entries of the arrays they hold are typed
  \<open>any\<close> in the source. They are modelled as JSON-like values. An object is the list of
  its own enumerable properties in enumeration order (keys distinct). Numbers are
  integers: an integer stands for the double of that value, the model covers integral
  numbers only, and \<open>NaN\<close> does not occur.
\<close>

datatype jsval =
    JUndefined
  | JNull
  | JBool bool
  | JNum int
  | JStr string
  | JArr "jsval list"
  | JObj "(string \<times> jsval) list"

datatype js_error = TypeError

text \<open>Truthiness, as \<open>if (x)\<close>, \<open>x && y\<close> and \<open>x || y\<close> test it.\<close>

fun truthy :: "jsval \<Rightarrow> bool" where
  "truthy JUndefined = False"
| "truthy JNull = False"
| "truthy (JBool b) = b"
| "truthy (JNum n) = (n \<noteq> 0)"
| "truthy (JStr s) = (s \<noteq> [])"
| "truthy (JArr xs) = True"
| "truthy (JObj ps) = True"

text \<open>\<open>a || b\<close> on values.\<close>

definition js_or :: "jsval \<Rightarrow> jsval \<Rightarrow> jsval" where
  "js_or a b = (if truthy a then a else b)"

text \<open>\<open>Array.isArray(x)\<close>.\<close>

fun isArray :: "jsval \<Rightarrow> bool" where
  "isArray (JArr xs) = True"
| "isArray v = False"

text \<open>\<open>typeof x === 'object'\<close>: true of \<open>null\<close>, of arrays and of objects.\<close>

fun typeof_object :: "jsval \<Rightarrow> bool" where
  "typeof_object JNull = True"
| "typeof_object (JArr xs) = True"
| "typeof_object (JObj ps) = True"
| "typeof_object v = False"


fun typeof_number :: "jsval \<Rightarrow> bool" where
  "typeof_number (JNum n) = True"
| "typeof_number v = False"

text \<open>
  The elements of an array value; the empty list for anything else. Every use below is
  guarded by \<open>isArray\<close>.
\<close>

fun elements :: "jsval \<Rightarrow> jsval list" where
  "elements (JArr xs) = xs"
| "elements v = []"

text \<open>
  Property read \<open>x.k\<close> on a value that is neither \<open>null\<close> nor \<open>undefined\<close>. On an object
  it is the own property or \<open>undefined\<close>; on an array or a primitive it is \<open>undefined\<close> for
  every name this program reads (\<open>$values\<close>, \<open>data\<close>, \<open>message\<close> and the entity fields;
  never \<open>length\<close> or an index).
\<close>

fun read_prop :: "jsval \<Rightarrow> string \<Rightarrow> jsval" where
  "read_prop (JObj ps) k = (case map_of ps k of Some v \<Rightarrow> v | None \<Rightarrow> JUndefined)"
| "read_prop v k = JUndefined"

text \<open>Property read on any value: reading from \<open>null\<close> or \<open>undefined\<close> throws.\<close>

fun read_propE :: "jsval \<Rightarrow> string \<Rightarrow> js_error + jsval" where
  "read_propE JUndefined k = Inl TypeError"
| "read_propE JNull k = Inl TypeError"
| "read_propE v k = Inr (read_prop v k)"

text \<open>\<open>Object.values(x)\<close> on an object.\<close>

fun Object_values :: "jsval \<Rightarrow> jsval list" where
  "Object_values (JObj ps) = map snd ps"
| "Object_values v = []"

text \<open>
  \<open>x.hasOwnProperty(k)\<close> on an object. The method is found by property lookup on \<open>x\<close>
  itself, so an own property named \<open>hasOwnProperty\<close> shadows the inherited method; no
  value of a parsed body is callable, and the call throws.
\<close>

fun hasOwnProperty :: "jsval \<Rightarrow> string \<Rightarrow> js_error + bool" where
  "hasOwnProperty (JObj ps) k =
     (if map_of ps ''hasOwnProperty'' \<noteq> None then Inl TypeError
      else Inr (map_of ps k \<noteq> None))"
| "hasOwnProperty v k = Inr False"

section \<open>Observables that emit once\<close>

text \<open>
  An HTTP observable delivers one value to \<open>next\<close> or one failure to \<open>error\<close>. A failure
  is a transport error (the error object) or an exception thrown inside an operator.
\<close>

datatype failure = Transport jsval | Thrown js_error

datatype 'a notification = Next 'a | Error failure

text \<open>\<open>map(f)\<close>: a throwing projection turns the value into an error notification.\<close>

definition rx_map :: "('a \<Rightarrow> js_error + 'b) \<Rightarrow> 'a notification \<Rightarrow> 'b notification" where
  "rx_map f n =
     (case n of
        Next v \<Rightarrow> (case f v of Inl e \<Rightarrow> Error (Thrown e) | Inr w \<Rightarrow> Next w)
      | Error e \<Rightarrow> Error e)"

text \<open>\<open>catchError(h)\<close>: an error notification is replaced by the observable \<open>h\<close> returns.\<close>

definition rx_catchError :: "(failure \<Rightarrow> 'a notification) \<Rightarrow> 'a notification \<Rightarrow> 'a notification" where
  "rx_catchError h n = (case n of Next v \<Rightarrow> Next v | Error e \<Rightarrow> h e)"

text \<open>\<open>subscribe({next, error})\<close> on a state \<open>s\<close>: exactly one continuation runs.\<close>

definition subscribe :: "'a notification \<Rightarrow> ('a \<Rightarrow> 's \<Rightarrow> 't) \<Rightarrow> (failure \<Rightarrow> 's \<Rightarrow> 't) \<Rightarrow> 's \<Rightarrow> 't" where
  "subscribe n onNext onError s = (case n of Next v \<Rightarrow> onNext v s | Error e \<Rightarrow> onError e s)"

section \<open>GroupsService.getGroups\<close>

text \<open>The projection passed to \<open>map\<close> (GroupsService.ts, lines 39-60).\<close>

definition getGroups_map :: "jsval \<Rightarrow> js_error + jsval" where
  "getGroups_map response =
     (if isArray response then Inr response
      else if truthy response \<and> typeof_object response then
        (case hasOwnProperty response ''$values'' of
           Inl e \<Rightarrow> Inl e
         | Inr True \<Rightarrow> Inr (js_or (read_prop response ''$values'') (JArr []))
         | Inr False \<Rightarrow>
             (case hasOwnProperty response ''data'' of
                Inl e \<Rightarrow> Inl e
              | Inr True \<Rightarrow> Inr (js_or (read_prop response ''data'') (JArr []))
              | Inr False \<Rightarrow> Inr (JArr (Object_values response))))
      else Inr (JArr []))"

text \<open>
  \<open>getGroups()\<close>, given what the HTTP request delivers: \<open>map\<close>, then \<open>catchError\<close>
  returning \<open>of([])\<close> (lines 61-64).
\<close>

definition GroupsService_getGroups :: "jsval notification \<Rightarrow> jsval notification" where
  "GroupsService_getGroups http =
     rx_catchError (\<lambda>error. Next (JArr [])) (rx_map getGroups_map http)"

section \<open>The normalization sites of RecordsComponent\<close>

text \<open>\<open>getRecords\<close>, the records array (part_000, lines 140-147).\<close>

definition getRecords_recordsArray :: "jsval \<Rightarrow> jsval list" where
  "getRecords_recordsArray data =
     (if isArray data then elements data
      else if truthy data \<and> isArray (read_prop data ''$values'') then elements (read_prop data ''$values'')
      else if truthy data \<and> isArray (read_prop data ''data'') then elements (read_prop data ''data'')
      else [])"

text \<open>\<open>getRecords\<close>, the groups of the nested group fetch (lines 159-164).\<close>

definition getRecords_groups :: "jsval \<Rightarrow> jsval list" where
  "getRecords_groups groupsResponse =
     (if isArray groupsResponse then elements groupsResponse
      else if truthy groupsResponse \<and> isArray (read_prop groupsResponse ''$values'')
        then elements (read_prop groupsResponse ''$values'')
      else [])"

text \<open>
  \<open>getGroups\<close>, the groups array (lines 242-255). \<open>response.$values\<close> is read with no
  guard, so a \<open>null\<close> or \<open>undefined\<close> response throws.
\<close>

definition getGroups_groupsArray :: "jsval \<Rightarrow> js_error + jsval list" where
  "getGroups_groupsArray response =
     (if isArray response then Inr (elements response)
      else (case read_propE response ''$values'' of
              Inl e \<Rightarrow> Inl e
            | Inr values \<Rightarrow>
                if isArray values then Inr (elements values)
                else if isArray (read_prop response ''data'') then Inr (elements (read_prop response ''data''))
                else Inr []))"

text \<open>The three tolerated encodings of a list of entities.\<close>

definition bare :: "jsval list \<Rightarrow> jsval" where
  "bare xs = JArr xs"

definition values_wrapper :: "jsval list \<Rightarrow> jsval" where
  "values_wrapper xs = JObj [(''$values'', JArr xs)]"

definition data_wrapper :: "jsval list \<Rightarrow> jsval" where
  "data_wrapper xs = JObj [(''data'', JArr xs)]"

text \<open>A value matching none of the three tolerated shapes.\<close>

definition no_tolerated_shape :: "jsval \<Rightarrow> bool" where
  "no_tolerated_shape v =
     (\<not> isArray v \<and> \<not> isArray (read_prop v ''$values'') \<and> \<not> isArray (read_prop v ''data''))"

section \<open>Strings\<close>

text \<open>
  A string is a list of characters, each one code unit in the Latin-1 range
  (code points 0 to 255); text outside that range is not covered by the model.
\<close>








section \<open>Numbers\<close>

text \<open>
  A JavaScript number is an IEEE 754 double. Every integer of magnitude up to \<open>2^53\<close> is
  a double; beyond that a double has a 53-bit significand. \<open>round_to_double\<close> is the
  double nearest to an integer, ties going to the even significand (for magnitudes
  below \<open>2^1024\<close>, where doubles end).
\<close>

fun bit_length :: "nat \<Rightarrow> nat" where
  "bit_length n = (if n = 0 then 0 else Suc (bit_length (n div 2)))"

definition round_to_double :: "int \<Rightarrow> int" where
  "round_to_double m =
     (if \<bar>m\<bar> \<le> 2 ^ 53 then m
      else let a = nat \<bar>m\<bar>;
               u = 2 ^ (bit_length a - 53);
               q = a div u;
               r = a mod u;
               q' = (if 2 * r > u \<or> (2 * r = u \<and> odd q) then q + 1 else q)
           in sgn m * int (q' * u))"

text \<open>\<open>a + b\<close> and \<open>a - b\<close> on doubles of integral value: the exact result, rounded.\<close>

definition js_add :: "int \<Rightarrow> int \<Rightarrow> int" where
  "js_add a b = round_to_double (a + b)"

definition js_sub :: "int \<Rightarrow> int \<Rightarrow> int" where
  "js_sub a b = round_to_double (a - b)"






section \<open>Records, the object store and the component\<close>

text \<open>
  Modelled from the spec: the interface \<open>IRecord\<close> (EcommerceInterface is not among the
  sources). The fields are those of the component's \<open>record\<close> initializer (part_000,
  lines 58-71) and of section 3 of the specification, with the optional \<open>inCart\<close> and
  \<open>amount\<close> the cart code reads and writes. \<open>None\<close> is \<open>null\<close> or \<open>undefined\<close>.
\<close>

record IRecord =
  idRecord :: int
  titleRecord :: string
  yearOfPublication :: "int option"
  imageRecord :: "string option"
  photo :: "string option"
  photoName :: "string option"
  price :: int
  stock :: int
  discontinued :: bool
  groupId :: "int option"
  groupName :: string
  nameGroup :: string
  inCart :: "bool option"
  amount :: "int option"

text \<open>
  Modelled from the spec: an entry of the cart snapshot (CartService is not among the
  sources): \<open>{idRecord, amount}\<close>, the amount possibly missing.
\<close>

record ICartItem =
  item_idRecord :: int
  item_amount :: "int option"

text \<open>
  Records are objects shared by reference between \<open>records\<close> and \<open>filteredRecords\<close>,
  and both arrays have an identity of their own. The store maps addresses to objects
  and to arrays; \<open>nxt\<close> is the next unused address.
\<close>

type_synonym addr = nat

record heap =
  objs :: "addr \<Rightarrow> IRecord"
  arrs :: "addr \<Rightarrow> addr list"
  nxt :: addr

definition alloc_obj :: "IRecord \<Rightarrow> heap \<Rightarrow> addr \<times> heap" where
  "alloc_obj r h = (nxt h, h\<lparr>objs := (objs h)(nxt h := r), nxt := Suc (nxt h)\<rparr>)"

definition alloc_arr :: "addr list \<Rightarrow> heap \<Rightarrow> addr \<times> heap" where
  "alloc_arr xs h = (nxt h, h\<lparr>arrs := (arrs h)(nxt h := xs), nxt := Suc (nxt h)\<rparr>)"

fun alloc_objs :: "IRecord list \<Rightarrow> heap \<Rightarrow> addr list \<times> heap" where
  "alloc_objs [] h = ([], h)"
| "alloc_objs (r # rs) h =
     (let (a, h1) = alloc_obj r h; (as, h2) = alloc_objs rs h1 in (a # as, h2))"

text \<open>The fields of RecordsComponent that the modelled methods read or write.\<close>

record RecordsComponent =
  visibleError :: bool
  errorMessage :: jsval
  records :: addr
  filteredRecords :: addr
  searchText :: string
  groups :: "jsval list"
  store :: heap

text \<open>The calls a handler makes on the injected services.\<close>

datatype service_call =
    RecordsService_getRecords
  | GroupsService_getGroups_call
  | StockService_updateStock jsval jsval
  | CartService_addToCart addr
  | CartService_removeFromCart addr

text \<open>The records a component shows: the objects its \<open>records\<close> array refers to.\<close>

definition records_of :: "RecordsComponent \<Rightarrow> IRecord list" where
  "records_of s = map (objs (store s)) (arrs (store s) (records s))"

definition filteredRecords_of :: "RecordsComponent \<Rightarrow> IRecord list" where
  "filteredRecords_of s = map (objs (store s)) (arrs (store s) (filteredRecords s))"

text \<open>
  Every address the component holds is in use: both arrays and all their entries lie
  below \<open>nxt\<close>.
\<close>

definition wf :: "RecordsComponent \<Rightarrow> bool" where
  "wf s =
     (records s < nxt (store s) \<and> filteredRecords s < nxt (store s)
      \<and> list_all (\<lambda>a. a < nxt (store s)) (arrs (store s) (records s))
      \<and> list_all (\<lambda>a. a < nxt (store s)) (arrs (store s) (filteredRecords s)))"

section \<open>Operations on \<open>any\<close> values\<close>

text \<open>
  \<open>x === y\<close>. Two primitives are equal when they are the same value. An array or an
  object is equal only to itself, and the two sides this program compares come from
  two different parsed bodies, so they are never the same object.
\<close>

fun strict_eq :: "jsval \<Rightarrow> jsval \<Rightarrow> bool" where
  "strict_eq (JArr xs) y = False"
| "strict_eq (JObj ps) y = False"
| "strict_eq x y = (x = y)"

text \<open>Assignment \<open>o.k = v\<close> to a property the object literal already has.\<close>

fun set_prop :: "jsval \<Rightarrow> string \<Rightarrow> jsval \<Rightarrow> jsval" where
  "set_prop (JObj ps) k v = JObj (map (\<lambda>(k', v'). if k' = k then (k', v) else (k', v')) ps)"
| "set_prop x k v = x"

text \<open>\<open>x || 0\<close> on an optional number.\<close>

definition or_0 :: "int option \<Rightarrow> int" where
  "or_0 x = (case x of Some n \<Rightarrow> n | None \<Rightarrow> 0)"

definition nullish :: "jsval \<Rightarrow> bool" where
  "nullish v = (v = JUndefined \<or> v = JNull)"

section \<open>RecordsComponent.getRecords\<close>

text \<open>
  A \<open>next\<close> continuation that can throw returns \<open>Inl\<close>; each of them throws before its
  first assignment, so the component is then as it was. A continuation that returns
  gives the new component and the service calls it made.
\<close>

text \<open>
  The \<open>forEach\<close> of lines 150-154: each record with a truthy \<open>idRecord\<close> and a numeric
  \<open>stock\<close> is forwarded to \<open>stockService.updateStock\<close>.
\<close>

fun initializeStock :: "jsval list \<Rightarrow> js_error + service_call list" where
  "initializeStock [] = Inr []"
| "initializeStock (record # rest) =
     (case read_propE record ''idRecord'' of
        Inl e \<Rightarrow> Inl e
      | Inr idr \<Rightarrow>
          (case initializeStock rest of
             Inl e \<Rightarrow> Inl e
           | Inr calls \<Rightarrow>
               Inr ((if truthy idr \<and> typeof_number (read_prop record ''stock'')
                     then [StockService_updateStock idr (read_prop record ''stock'')]
                     else []) @ calls)))"

text \<open>
  The \<open>next\<close> continuation of the record fetch (lines 138-157), up to the nested
  subscription; \<open>recordsArray\<close> is handed on to the continuations of the group fetch.
\<close>

definition getRecords_next :: "jsval \<Rightarrow> RecordsComponent \<Rightarrow> js_error + RecordsComponent \<times> service_call list" where
  "getRecords_next data s =
     (case initializeStock (getRecords_recordsArray data) of
        Inl e \<Rightarrow> Inl e
      | Inr calls \<Rightarrow> Inr (s, calls @ [GroupsService_getGroups_call]))"

text \<open>
  \<open>groups.find(g => g.idGroup === groupId)\<close>: the first entry whose \<open>idGroup\<close> is
  strictly equal to \<open>groupId\<close>; reading \<open>idGroup\<close> from a \<open>null\<close> or \<open>undefined\<close> entry
  throws.
\<close>

fun find_group :: "jsval \<Rightarrow> jsval list \<Rightarrow> js_error + jsval option" where
  "find_group gid [] = Inr None"
| "find_group gid (g # gs) =
     (case read_propE g ''idGroup'' of
        Inl e \<Rightarrow> Inl e
      | Inr v \<Rightarrow> if strict_eq v gid then Inr (Some g) else find_group gid gs)"

text \<open>
  The callback of \<open>recordsArray.map\<close> (lines 167-194). \<open>processedRecord\<close> is the object
  literal of lines 169-182: each field is the fetched value when truthy, else its
  default. The result is that object, with both names assigned when a group is found.
\<close>

definition processRecord :: "jsval list \<Rightarrow> jsval \<Rightarrow> js_error + jsval" where
  "processRecord grps record =
     (if nullish record then Inl TypeError
      else
        let processedRecord =
              JObj [(''idRecord'', js_or (read_prop record ''idRecord'') (JNum 0)),
                    (''titleRecord'', js_or (read_prop record ''titleRecord'') (JStr [])),
                    (''yearOfPublication'', js_or (read_prop record ''yearOfPublication'') JNull),
                    (''imageRecord'', js_or (read_prop record ''imageRecord'') JNull),
                    (''photo'', js_or (read_prop record ''photo'') JNull),
                    (''photoName'', js_or (read_prop record ''photoName'') JNull),
                    (''price'', js_or (read_prop record ''price'') (JNum 0)),
                    (''stock'', js_or (read_prop record ''stock'') (JNum 0)),
                    (''discontinued'', js_or (read_prop record ''discontinued'') (JBool False)),
                    (''groupId'', js_or (read_prop record ''groupId'') JNull),
                    (''groupName'', JStr []),
                    (''nameGroup'', JStr [])]
        in if read_prop processedRecord ''groupId'' \<noteq> JNull
           then (case find_group (read_prop processedRecord ''groupId'') grps of
                   Inl e \<Rightarrow> Inl e
                 | Inr None \<Rightarrow> Inr processedRecord
                 | Inr (Some g) \<Rightarrow>
                     if truthy g
                     then Inr (set_prop
                                 (set_prop processedRecord ''groupName''
                                    (js_or (read_prop g ''nameGroup'') (JStr [])))
                                 ''nameGroup'' (js_or (read_prop g ''nameGroup'') (JStr [])))
                     else Inr processedRecord)
           else Inr processedRecord)"

fun mapE :: "('a \<Rightarrow> js_error + 'b) \<Rightarrow> 'a list \<Rightarrow> js_error + 'b list" where
  "mapE f [] = Inr []"
| "mapE f (x # xs) =
     (case f x of
        Inl e \<Rightarrow> Inl e
      | Inr y \<Rightarrow> (case mapE f xs of Inl e \<Rightarrow> Inl e | Inr ys \<Rightarrow> Inr (y # ys)))"

text \<open>
  The \<open>next\<close> continuation of the nested group fetch (lines 158-199). The processed
  objects become the \<open>IRecord\<close>s of \<open>records\<close> through TypeScript's unchecked typing of
  the literal, the parameter \<open>cast\<close>.
\<close>

definition getRecords_groups_next :: "(jsval \<Rightarrow> IRecord) \<Rightarrow> jsval list \<Rightarrow> jsval \<Rightarrow> RecordsComponent \<Rightarrow> js_error + RecordsComponent \<times> service_call list" where
  "getRecords_groups_next cast recordsArray groupsResponse s =
     (case mapE (processRecord (getRecords_groups groupsResponse)) recordsArray of
        Inl e \<Rightarrow> Inl e
      | Inr processedRecords \<Rightarrow>
          let (refs, h1) = alloc_objs (map cast processedRecords) (store s);
              (a, h2) = alloc_arr refs h1;
              (b, h3) = alloc_arr refs h2
          in Inr (s\<lparr>records := a, filteredRecords := b, store := h3\<rparr>, []))"





section \<open>Error reporting\<close>





section \<open>RecordsComponent.getGroups\<close>




section \<open>save and deleteRecord\<close>



section \<open>The stock and cart subscriptions\<close>

text \<open>
  \<open>xs.map(record => record.idRecord === recordId ? {...record, stock: newStock} : record)\<close>:
  a matching entry is replaced by a newly allocated copy, any other entry is kept.
\<close>

fun map_stock :: "int \<Rightarrow> int \<Rightarrow> addr list \<Rightarrow> heap \<Rightarrow> addr list \<times> heap" where
  "map_stock recordId newStock [] h = ([], h)"
| "map_stock recordId newStock (a # as) h =
     (if idRecord (objs h a) = recordId
      then (let (b, h1) = alloc_obj ((objs h a)\<lparr>stock := newStock\<rparr>) h;
                (bs, h2) = map_stock recordId newStock as h1
            in (b # bs, h2))
      else (let (bs, h2) = map_stock recordId newStock as h in (a # bs, h2)))"

text \<open>
  The subscriber of \<open>stockUpdate$\<close> (lines 98-112). The emitted value is \<open>None\<close> when it
  is \<open>null\<close> or \<open>undefined\<close>, or the pair \<open>(recordId, newStock)\<close>.
\<close>

definition stockUpdate_next :: "(int \<times> int) option \<Rightarrow> RecordsComponent \<Rightarrow> RecordsComponent" where
  "stockUpdate_next update s =
     (case update of
        None \<Rightarrow> s
      | Some (recordId, newStock) \<Rightarrow>
          let (rs, h1) = map_stock recordId newStock (arrs (store s) (records s)) (store s);
              (a, h2) = alloc_arr rs h1;
              (fs, h3) = map_stock recordId newStock (arrs h2 (filteredRecords s)) h2;
              (b, h4) = alloc_arr fs h3
          in s\<lparr>records := a, filteredRecords := b, store := h4\<rparr>)"

text \<open>
  The \<open>forEach\<close> of the cart subscriber (lines 118-124): each record object is updated
  in place.
\<close>

fun cart_forEach :: "ICartItem list \<Rightarrow> addr list \<Rightarrow> heap \<Rightarrow> heap" where
  "cart_forEach cartItems [] h = h"
| "cart_forEach cartItems (a # as) h =
     (let record = objs h a;
          cartItem = find (\<lambda>item. item_idRecord item = idRecord record) cartItems;
          record' = record
            \<lparr> inCart := Some (cartItem \<noteq> None),
              amount := Some (case cartItem of Some item \<Rightarrow> or_0 (item_amount item) | None \<Rightarrow> 0) \<rparr>
      in cart_forEach cartItems as (h\<lparr>objs := (objs h)(a := record')\<rparr>))"

text \<open>The subscriber of \<open>cart$\<close> (lines 117-127).\<close>

definition cart_next :: "ICartItem list \<Rightarrow> RecordsComponent \<Rightarrow> RecordsComponent" where
  "cart_next cartItems s =
     (let h1 = cart_forEach cartItems (arrs (store s) (records s)) (store s);
          (b, h2) = alloc_arr (arrs h1 (records s)) h1
      in s\<lparr>filteredRecords := b, store := h2\<rparr>)"

section \<open>RecordsComponent.filterRecords\<close>



section \<open>addToCart and removeFromCart\<close>

text \<open>\<open>!userEmail\<close> on \<open>string | null\<close>.\<close>

definition no_email :: "string option \<Rightarrow> bool" where
  "no_email userEmail = (case userEmail of None \<Rightarrow> True | Some e \<Rightarrow> e = [])"

text \<open>
  \<open>addToCart\<close> up to the subscription (lines 392-396): the guard, then the call on the
  cart service. The two continuations run when that call resolves.
\<close>

definition addToCart :: "string option \<Rightarrow> addr \<Rightarrow> RecordsComponent \<Rightarrow> RecordsComponent \<times> service_call list" where
  "addToCart userEmail record s =
     (if no_email userEmail then (s, []) else (s, [CartService_addToCart record]))"

definition addToCart_next :: "addr \<Rightarrow> RecordsComponent \<Rightarrow> RecordsComponent \<times> service_call list" where
  "addToCart_next record s =
     (let h = store s;
          r = objs h record;
          h1 = h\<lparr>objs := (objs h)(record := r\<lparr>inCart := Some True, amount := Some (js_add (or_0 (amount r)) 1)\<rparr>)\<rparr>;
          (b, h2) = alloc_arr (arrs h1 (records s)) h1
      in (s\<lparr>filteredRecords := b, store := h2\<rparr>, []))"

definition addToCart_error :: "addr \<Rightarrow> RecordsComponent \<Rightarrow> RecordsComponent \<times> service_call list" where
  "addToCart_error record s =
     (let h = store s;
          r = objs h record;
          h1 = h\<lparr>objs := (objs h)(record := r\<lparr>inCart := Some False, amount := Some 0\<rparr>)\<rparr>;
          (b, h2) = alloc_arr (arrs h1 (records s)) h1
      in (s\<lparr>filteredRecords := b, store := h2\<rparr>, []))"

text \<open>\<open>removeFromCart\<close> up to the subscription (lines 413-417).\<close>

definition removeFromCart :: "string option \<Rightarrow> addr \<Rightarrow> RecordsComponent \<Rightarrow> RecordsComponent \<times> service_call list" where
  "removeFromCart userEmail record s =
     (if no_email userEmail \<or> inCart (objs (store s) record) \<noteq> Some True then (s, [])
      else (s, [CartService_removeFromCart record]))"

definition removeFromCart_next :: "addr \<Rightarrow> RecordsComponent \<Rightarrow> RecordsComponent \<times> service_call list" where
  "removeFromCart_next record s =
     (let h = store s;
          r = objs h record;
          amount' = max 0 (js_sub (or_0 (amount r)) 1);
          h1 = h\<lparr>objs := (objs h)(record := r\<lparr>inCart := Some (amount' > 0), amount := Some amount'\<rparr>)\<rparr>;
          (b, h2) = alloc_arr (arrs h1 (records s)) h1
      in (s\<lparr>filteredRecords := b, store := h2\<rparr>, []))"

definition removeFromCart_error :: "addr \<Rightarrow> RecordsComponent \<Rightarrow> RecordsComponent \<times> service_call list" where
  "removeFromCart_error record s =
     (let h = store s;
          r = objs h record;
          h1 = h\<lparr>objs := (objs h)(record := r\<lparr>inCart := Some True, amount := Some (js_add (or_0 (amount r)) 1)\<rparr>)\<rparr>;
          (b, h2) = alloc_arr (arrs h1 (records s)) h1
      in (s\<lparr>filteredRecords := b, store := h2\<rparr>, []))"

text \<open>The cart calls resolve with an acknowledgement or fail.\<close>

definition addToCart_resolve :: "unit notification \<Rightarrow> addr \<Rightarrow> RecordsComponent \<Rightarrow> RecordsComponent \<times> service_call list" where
  "addToCart_resolve n record s =
     subscribe n (\<lambda>response. addToCart_next record) (\<lambda>error. addToCart_error record) s"

definition removeFromCart_resolve :: "unit notification \<Rightarrow> addr \<Rightarrow> RecordsComponent \<Rightarrow> RecordsComponent \<times> service_call list" where
  "removeFromCart_resolve n record s =
     subscribe n (\<lambda>response. removeFromCart_next record) (\<lambda>error. removeFromCart_error record) s"

section \<open>Example inputs\<close>

definition rock :: jsval where
  "rock = JObj [(''idGroup'', JNum 9), (''nameGroup'', JStr ''Rock'')]"

definition unexpected_object :: jsval where
  "unexpected_object = JObj [(''a'', JNum 1)]"

definition nested_envelope :: jsval where
  "nested_envelope = JObj [(''$values'', data_wrapper [rock])]"

definition record7 :: IRecord where
  "record7 = \<lparr> idRecord = 7, titleRecord = ''Ok Computer'', yearOfPublication = Some 1997,
      imageRecord = None, photo = None, photoName = None, price = 12, stock = 2,
      discontinued = False, groupId = Some 9, groupName = ''Rock'', nameGroup = ''Rock'',
      inCart = Some True, amount = Some 1 \<rparr>"

definition record8 :: IRecord where
  "record8 = \<lparr> idRecord = 8, titleRecord = ''Blue Train'', yearOfPublication = None,
      imageRecord = None, photo = None, photoName = None, price = 9, stock = 4,
      discontinued = False, groupId = None, groupName = [], nameGroup = [],
      inCart = None, amount = None \<rparr>"

definition demo :: RecordsComponent where
  "demo = \<lparr> visibleError = False, errorMessage = JStr [], records = 2, filteredRecords = 3,
      searchText = [], groups = [rock],
      store = \<lparr> objs = (\<lambda>a. if a = 0 then record7 else record8),
                arrs = (\<lambda>a. if a = 2 \<or> a = 3 then [0, 1] else []),
                nxt = 4 \<rparr> \<rparr>"

definition fetched_record :: jsval where
  "fetched_record = JObj [(''idRecord'', JNum 1), (''titleRecord'', JStr ''A''), (''groupId'', JNum 9), (''stock'', JNum 2)]"


section \<open>GroupsService.getGroups never fails\<close>

lemma catchError_of_empty: "\<exists>v. rx_catchError (\<lambda>error. Next (JArr [])) n = Next v"
  by (cases n) (simp_all add: rx_catchError_def)

text \<open>
  C10: \<open>GroupsService.getGroups\<close> never delivers an error to its subscriber. Whatever the
  HTTP request delivers, the observable emits a value; for every failure it emits the
  empty list; and a subscriber's \<open>error\<close> continuation is never the one that runs.
\<close>

theorem getGroups_never_errors:
  "(\<exists>v. GroupsService_getGroups http = Next v)
   \<and> GroupsService_getGroups (Error e) = Next (JArr [])
   \<and> (\<exists>v. subscribe (GroupsService_getGroups http) onNext onError s = onNext v s)"
proof -
  obtain v where v: "GroupsService_getGroups http = Next v"
    unfolding GroupsService_getGroups_def using catchError_of_empty by blast
  have "GroupsService_getGroups (Error e) = Next (JArr [])"
    by (simp add: GroupsService_getGroups_def rx_map_def rx_catchError_def)
  moreover have "subscribe (GroupsService_getGroups http) onNext onError s = onNext v s"
    by (simp add: v subscribe_def)
  ultimately show ?thesis using v by blast
qed

theorem getGroups_never_errors_witness:
  "GroupsService_getGroups (Error (Transport (JObj [(''status'', JNum 500)]))) = Next (JArr [])
   \<and> subscribe (GroupsService_getGroups (Error (Transport (JObj [(''status'', JNum 500)]))))
        (\<lambda>v s. (0::nat)) (\<lambda>err s. 1) () = 0"
  using getGroups_never_errors
    [of "Error (Transport (JObj [(''status'', JNum 500)]))" "Transport (JObj [(''status'', JNum 500)])"
        "\<lambda>v s. (0::nat)" "\<lambda>err s. 1" "()"]
  by (auto simp: subscribe_def)

section \<open>Normalization of response envelopes\<close>

lemma recordsArray_three_shapes:
  "getRecords_recordsArray (bare xs) = xs
   \<and> getRecords_recordsArray (values_wrapper xs) = xs
   \<and> getRecords_recordsArray (data_wrapper xs) = xs"
  by (simp add: getRecords_recordsArray_def bare_def values_wrapper_def data_wrapper_def)

lemma groupsArray_three_shapes:
  "getGroups_groupsArray (bare xs) = Inr xs
   \<and> getGroups_groupsArray (values_wrapper xs) = Inr xs
   \<and> getGroups_groupsArray (data_wrapper xs) = Inr xs"
  by (simp add: getGroups_groupsArray_def bare_def values_wrapper_def data_wrapper_def)

lemma getGroups_map_three_shapes:
  "getGroups_map (bare xs) = Inr (JArr xs)
   \<and> getGroups_map (values_wrapper xs) = Inr (JArr xs)
   \<and> getGroups_map (data_wrapper xs) = Inr (JArr xs)"
  by (simp add: getGroups_map_def bare_def values_wrapper_def data_wrapper_def js_or_def)

lemma nested_groups_two_shapes:
  "getRecords_groups (bare xs) = xs \<and> getRecords_groups (values_wrapper xs) = xs"
  by (simp add: getRecords_groups_def bare_def values_wrapper_def)

text \<open>
  C4, as stated, fails: on an object of none of the three shapes the record
  normalization of \<open>getRecords\<close> gives the empty sequence, not the object's values, and it
  is \<open>GroupsService.getGroups\<close> that enumerates the values, which then reach the
  component's group list.
\<close>

theorem unrecognized_shape_counterexample:
  "no_tolerated_shape unexpected_object
   \<and> getRecords_recordsArray unexpected_object \<noteq> Object_values unexpected_object
   \<and> GroupsService_getGroups (Next unexpected_object) = Next (JArr [JNum 1])
   \<and> getGroups_groupsArray (JArr [JNum 1]) \<noteq> Inr []"
  by (simp add: unexpected_object_def no_tolerated_shape_def getRecords_recordsArray_def
      GroupsService_getGroups_def rx_map_def rx_catchError_def getGroups_map_def
      getGroups_groupsArray_def)

text \<open>
  C4, amended: on a value of none of the three tolerated shapes, the record
  normalization of \<open>getRecords\<close>, its nested group normalization and the group
  normalization of the component's \<open>getGroups\<close> all give the empty sequence (the last
  one throws on \<open>null\<close> or \<open>undefined\<close>). The fallback to the object's own values is in
  \<open>GroupsService.getGroups\<close>: it applies to an object with no own property \<open>$values\<close>,
  \<open>data\<close> or \<open>hasOwnProperty\<close>; a value that is not an object gives the empty sequence
  there too.
\<close>

theorem unrecognized_shape_normalization:
  assumes "no_tolerated_shape v"
  shows "getRecords_recordsArray v = []
    \<and> getRecords_groups v = []
    \<and> getGroups_groupsArray v = (if nullish v then Inl TypeError else Inr [])
    \<and> (\<forall>ps. v = JObj ps \<and> map_of ps ''$values'' = None \<and> map_of ps ''data'' = None
              \<and> map_of ps ''hasOwnProperty'' = None
          \<longrightarrow> getGroups_map v = Inr (JArr (Object_values v)))
    \<and> (\<not> typeof_object v \<or> v = JNull \<longrightarrow> getGroups_map v = Inr (JArr []))"
  using assms
  by (cases v) (auto simp: no_tolerated_shape_def getRecords_recordsArray_def getRecords_groups_def
      getGroups_groupsArray_def nullish_def getGroups_map_def)

theorem unrecognized_shape_normalization_witness:
  "no_tolerated_shape (JObj [(''b'', JStr ''x''), (''a'', JNum 2)])
   \<and> getRecords_recordsArray (JObj [(''b'', JStr ''x''), (''a'', JNum 2)]) = []
   \<and> getGroups_groupsArray (JObj [(''b'', JStr ''x''), (''a'', JNum 2)]) = Inr []
   \<and> getGroups_map (JObj [(''b'', JStr ''x''), (''a'', JNum 2)]) = Inr (JArr [JStr ''x'', JNum 2])
   \<and> no_tolerated_shape (JNum 5) \<and> getGroups_map (JNum 5) = Inr (JArr [])"
  using unrecognized_shape_normalization [of "JObj [(''b'', JStr ''x''), (''a'', JNum 2)]"]
    unrecognized_shape_normalization [of "JNum 5"]
  by (simp add: no_tolerated_shape_def nullish_def)

text \<open>
  C6 at the failing input. The body \<open>{"$values": {"data": [rock]}}\<close> leaves
  \<open>GroupsService.getGroups\<close> as the wrapper \<open>{data: [rock]}\<close>. The group normalization
  nested in the record fetch gives the empty list for it, while it gives \<open>[rock]\<close> for
  the two other encodings of the same list, and the normalization of the component's
  \<open>getGroups\<close> and the record normalization give \<open>[rock]\<close> for all three.
\<close>

theorem nested_group_normalization_misses_data:
  "GroupsService_getGroups (Next nested_envelope) = Next (data_wrapper [rock])
   \<and> getRecords_groups (data_wrapper [rock]) = []
   \<and> getRecords_groups (bare [rock]) = [rock]
   \<and> getRecords_groups (values_wrapper [rock]) = [rock]
   \<and> getGroups_groupsArray (data_wrapper [rock]) = Inr [rock]
   \<and> getRecords_recordsArray (data_wrapper [rock]) = [rock]"
  by (simp add: nested_envelope_def GroupsService_getGroups_def rx_map_def rx_catchError_def
      getGroups_map_def js_or_def getRecords_groups_def getGroups_groupsArray_def
      getRecords_recordsArray_def bare_def values_wrapper_def data_wrapper_def)

section \<open>The stock subscription\<close>

lemma map_stock_props:
  assumes "list_all (\<lambda>a. a < nxt h) as" and "map_stock rid ns as h = (bs, h')"
  shows "nxt h \<le> nxt h' \<and> arrs h' = arrs h \<and> (\<forall>a < nxt h. objs h' a = objs h a)
    \<and> length bs = length as \<and> list_all (\<lambda>a. a < nxt h') bs
    \<and> map (objs h') bs = map (\<lambda>r. if idRecord r = rid then r\<lparr>stock := ns\<rparr> else r) (map (objs h) as)
    \<and> (\<forall>i < length as. if idRecord (objs h (as ! i)) = rid then nxt h \<le> bs ! i else bs ! i = as ! i)"
  using assms
proof (induction as arbitrary: h bs h')
  case Nil
  then show ?case by simp
next
  case (Cons a as)
  show ?case
  proof (cases "idRecord (objs h a) = rid")
    case True
    define h1 where "h1 = snd (alloc_obj ((objs h a)\<lparr>stock := ns\<rparr>) h)"
    obtain cs h2 where rec: "map_stock rid ns as h1 = (cs, h2)" by force
    have h1: "nxt h1 = Suc (nxt h)" "arrs h1 = arrs h" "objs h1 = (objs h)(nxt h := (objs h a)\<lparr>stock := ns\<rparr>)"
      by (simp_all add: h1_def alloc_obj_def)
    have bs: "bs = nxt h # cs" "h' = h2"
      using Cons.prems(2) True rec by (simp_all add: alloc_obj_def h1_def split: prod.splits)
    have all1: "list_all (\<lambda>a. a < nxt h1) as"
      using Cons.prems(1) by (auto simp: h1 list_all_iff)
    note IH = Cons.IH [OF all1 rec]
    have old: "\<forall>x \<in> set (a # as). objs h1 x = objs h x"
      using Cons.prems(1) by (auto simp: h1 list_all_iff)
    have a_lt: "a < nxt h" using Cons.prems(1) by simp
    have m: "map (objs h1) as = map (objs h) as" using old by simp
    have idx: "\<forall>i < length as. idRecord (objs h1 (as ! i)) = idRecord (objs h (as ! i))"
      using old by simp
    have "objs h2 (nxt h) = (objs h a)\<lparr>stock := ns\<rparr>"
      using IH h1 by simp
    moreover have "\<forall>i<length (a # as). if idRecord (objs h ((a # as) ! i)) = rid then nxt h \<le> bs ! i else bs ! i = (a # as) ! i"
    proof (intro allI impI)
      fix i assume i: "i < length (a # as)"
      show "if idRecord (objs h ((a # as) ! i)) = rid then nxt h \<le> bs ! i else bs ! i = (a # as) ! i"
      proof (cases i)
        case 0 then show ?thesis using True bs by simp
      next
        case (Suc j)
        then have j: "j < length as" using i by simp
        from IH j have "if idRecord (objs h1 (as ! j)) = rid then nxt h1 \<le> cs ! j else cs ! j = as ! j" by blast
        then show ?thesis using Suc bs idx j h1 by (auto split: if_splits)
      qed
    qed
    ultimately show ?thesis
      using IH bs True h1(1,2) m a_lt
      by (auto simp: list_all_iff h1(3))
  next
    case False
    obtain cs h2 where rec: "map_stock rid ns as h = (cs, h2)" by force
    have bs: "bs = a # cs" "h' = h2"
      using Cons.prems(2) False rec by simp_all
    have all1: "list_all (\<lambda>a. a < nxt h) as" using Cons.prems(1) by simp
    note IH = Cons.IH [OF all1 rec]
    have a_lt: "a < nxt h" using Cons.prems(1) by simp
    have "\<forall>i<length (a # as). if idRecord (objs h ((a # as) ! i)) = rid then nxt h \<le> bs ! i else bs ! i = (a # as) ! i"
    proof (intro allI impI)
      fix i assume i: "i < length (a # as)"
      show "if idRecord (objs h ((a # as) ! i)) = rid then nxt h \<le> bs ! i else bs ! i = (a # as) ! i"
      proof (cases i)
        case 0 then show ?thesis using False bs by simp
      next
        case (Suc j)
        then have j: "j < length as" using i by simp
        from IH j have "if idRecord (objs h (as ! j)) = rid then nxt h \<le> cs ! j else cs ! j = as ! j" by blast
        then show ?thesis using Suc bs by simp
      qed
    qed
    then show ?thesis
      using IH bs False a_lt by (auto simp: list_all_iff)
  qed
qed


lemma stockUpdate_next_props:
  assumes "wf s"
  shows "wf (stockUpdate_next (Some (rid, ns)) s)"
    and "nxt (store s) \<le> records (stockUpdate_next (Some (rid, ns)) s)"
    and "nxt (store s) \<le> filteredRecords (stockUpdate_next (Some (rid, ns)) s)"
    and "records_of (stockUpdate_next (Some (rid, ns)) s)
        = map (\<lambda>r. if idRecord r = rid then r\<lparr>stock := ns\<rparr> else r) (records_of s)"
    and "filteredRecords_of (stockUpdate_next (Some (rid, ns)) s)
        = map (\<lambda>r. if idRecord r = rid then r\<lparr>stock := ns\<rparr> else r) (filteredRecords_of s)"
    and "\<forall>a < nxt (store s). objs (store (stockUpdate_next (Some (rid, ns)) s)) a = objs (store s) a"
    and "\<forall>i < length (arrs (store s) (records s)).
          if idRecord (objs (store s) (arrs (store s) (records s) ! i)) = rid
          then nxt (store s) \<le> arrs (store (stockUpdate_next (Some (rid, ns)) s)) (records (stockUpdate_next (Some (rid, ns)) s)) ! i
          else arrs (store (stockUpdate_next (Some (rid, ns)) s)) (records (stockUpdate_next (Some (rid, ns)) s)) ! i
               = arrs (store s) (records s) ! i"
    and "\<forall>i < length (arrs (store s) (filteredRecords s)).
          if idRecord (objs (store s) (arrs (store s) (filteredRecords s) ! i)) = rid
          then nxt (store s) \<le> arrs (store (stockUpdate_next (Some (rid, ns)) s)) (filteredRecords (stockUpdate_next (Some (rid, ns)) s)) ! i
          else arrs (store (stockUpdate_next (Some (rid, ns)) s)) (filteredRecords (stockUpdate_next (Some (rid, ns)) s)) ! i
               = arrs (store s) (filteredRecords s) ! i"
proof -
  define h where "h = store s"
  define rs0 where "rs0 = arrs h (records s)"
  define fs0 where "fs0 = arrs h (filteredRecords s)"
  obtain rs h1 where m1: "map_stock rid ns rs0 h = (rs, h1)" by force
  define a where "a = nxt h1"
  define h2 where "h2 = h1\<lparr>arrs := (arrs h1)(nxt h1 := rs), nxt := Suc (nxt h1)\<rparr>"
  obtain fs h3 where m2: "map_stock rid ns (arrs h2 (filteredRecords s)) h2 = (fs, h3)" by force
  define b where "b = nxt h3"
  define h4 where "h4 = h3\<lparr>arrs := (arrs h3)(nxt h3 := fs), nxt := Suc (nxt h3)\<rparr>"
  have res: "stockUpdate_next (Some (rid, ns)) s = s\<lparr>records := a, filteredRecords := b, store := h4\<rparr>"
    using m1 m2
    by (simp add: stockUpdate_next_def alloc_arr_def h_def rs0_def a_def b_def h2_def h4_def)
  have wfs: "records s < nxt h" "filteredRecords s < nxt h"
    "list_all (\<lambda>a. a < nxt h) rs0" "list_all (\<lambda>a. a < nxt h) fs0"
    using assms by (simp_all add: wf_def h_def rs0_def fs0_def)
  note P1 = map_stock_props [OF wfs(3) m1]
  have fs0': "arrs h2 (filteredRecords s) = fs0"
    using P1 wfs(2) by (simp add: h2_def fs0_def)
  have all2: "list_all (\<lambda>a. a < nxt h2) fs0"
    using wfs(4) P1 by (auto simp: h2_def list_all_iff)
  have m2': "map_stock rid ns fs0 h2 = (fs, h3)" using m2 fs0' by simp
  note P2 = map_stock_props [OF all2 m2']
  have nx: "nxt h \<le> nxt h1" "nxt h2 = Suc (nxt h1)" "nxt h2 \<le> nxt h3" "nxt h4 = Suc (nxt h3)"
    using P1 P2 by (simp_all add: h2_def h4_def)
  have objs2: "objs h2 = objs h1" by (simp add: h2_def)
  have objs4: "objs h4 = objs h3" by (simp add: h4_def)
  have arr_a: "arrs h4 a = rs"
    using P2 nx by (simp add: h4_def a_def h2_def)
  have arr_b: "arrs h4 b = fs" by (simp add: h4_def b_def)
  have rs_lt: "list_all (\<lambda>x. x < nxt h1) rs" using P1 by simp
  have fs_lt: "list_all (\<lambda>x. x < nxt h3) fs" using P2 by simp
  have keep3: "\<forall>x < nxt h2. objs h3 x = objs h2 x" using P2 by simp
  have map_rs: "map (objs h4) rs = map (objs h1) rs"
    using rs_lt keep3 nx by (auto simp: objs4 objs2 list_all_iff)
  have map_fs0: "map (objs h2) fs0 = map (objs h) fs0"
    using wfs(4) P1 by (auto simp: objs2 list_all_iff)
  have old_objs: "\<forall>x < nxt h. objs h4 x = objs h x"
    using P1 keep3 nx by (simp add: objs4 objs2)
  have idx_r: "\<forall>i < length rs0. if idRecord (objs h (rs0 ! i)) = rid then nxt h \<le> rs ! i else rs ! i = rs0 ! i"
    using P1 by blast
  have "\<forall>i < length fs0. if idRecord (objs h2 (fs0 ! i)) = rid then nxt h2 \<le> fs ! i else fs ! i = fs0 ! i"
    using P2 by blast
  moreover have "\<forall>i < length fs0. objs h2 (fs0 ! i) = objs h (fs0 ! i)"
    using wfs(4) P1 by (auto simp: objs2 list_all_iff)
  ultimately have idx_f: "\<forall>i < length fs0. if idRecord (objs h (fs0 ! i)) = rid then nxt h \<le> fs ! i else fs ! i = fs0 ! i"
    using nx by (auto split: if_splits)
  have m_r: "map (objs h1) rs = map (\<lambda>r. if idRecord r = rid then r\<lparr>stock := ns\<rparr> else r) (map (objs h) rs0)"
    using P1 by simp
  have m_f: "map (objs h3) fs = map (\<lambda>r. if idRecord r = rid then r\<lparr>stock := ns\<rparr> else r) (map (objs h) fs0)"
    using P2 map_fs0 by simp
  show "wf (stockUpdate_next (Some (rid, ns)) s)"
    unfolding res using rs_lt fs_lt nx arr_a arr_b
    by (auto simp: wf_def a_def b_def list_all_iff)
  show "nxt (store s) \<le> records (stockUpdate_next (Some (rid, ns)) s)"
    unfolding res using nx by (simp add: a_def h_def)
  show "nxt (store s) \<le> filteredRecords (stockUpdate_next (Some (rid, ns)) s)"
    unfolding res using nx by (simp add: b_def h_def)
  show "records_of (stockUpdate_next (Some (rid, ns)) s)
        = map (\<lambda>r. if idRecord r = rid then r\<lparr>stock := ns\<rparr> else r) (records_of s)"
    unfolding res using arr_a map_rs m_r
    by (simp add: records_of_def h_def [symmetric] rs0_def [symmetric])
  show "filteredRecords_of (stockUpdate_next (Some (rid, ns)) s)
        = map (\<lambda>r. if idRecord r = rid then r\<lparr>stock := ns\<rparr> else r) (filteredRecords_of s)"
    unfolding res using arr_b m_f
    by (simp add: filteredRecords_of_def objs4 h_def [symmetric] fs0_def [symmetric])
  show "\<forall>a < nxt (store s). objs (store (stockUpdate_next (Some (rid, ns)) s)) a = objs (store s) a"
    unfolding res using old_objs by (simp add: h_def)
  show "\<forall>i < length (arrs (store s) (records s)).
          if idRecord (objs (store s) (arrs (store s) (records s) ! i)) = rid
          then nxt (store s) \<le> arrs (store (stockUpdate_next (Some (rid, ns)) s)) (records (stockUpdate_next (Some (rid, ns)) s)) ! i
          else arrs (store (stockUpdate_next (Some (rid, ns)) s)) (records (stockUpdate_next (Some (rid, ns)) s)) ! i
               = arrs (store s) (records s) ! i"
    unfolding res using idx_r arr_a
    by (simp add: h_def [symmetric] rs0_def [symmetric])
  show "\<forall>i < length (arrs (store s) (filteredRecords s)).
          if idRecord (objs (store s) (arrs (store s) (filteredRecords s) ! i)) = rid
          then nxt (store s) \<le> arrs (store (stockUpdate_next (Some (rid, ns)) s)) (filteredRecords (stockUpdate_next (Some (rid, ns)) s)) ! i
          else arrs (store (stockUpdate_next (Some (rid, ns)) s)) (filteredRecords (stockUpdate_next (Some (rid, ns)) s)) ! i
               = arrs (store s) (filteredRecords s) ! i"
    unfolding res using idx_f arr_b
    by (simp add: h_def [symmetric] fs0_def [symmetric])
qed

lemma with_stock_ids:
  "map idRecord (map (\<lambda>r. if idRecord r = rid then r\<lparr>stock := v\<rparr> else r) xs) = map idRecord xs"
  by (induction xs) simp_all

lemma with_stock_twice:
  "map (\<lambda>r. if idRecord r = rid then r\<lparr>stock := w\<rparr> else r)
     (map (\<lambda>r. if idRecord r = rid then r\<lparr>stock := v\<rparr> else r) xs)
   = map (\<lambda>r. if idRecord r = rid then r\<lparr>stock := w\<rparr> else r) xs"
  by (induction xs) simp_all

lemma with_stock_all:
  "list_all (\<lambda>r. idRecord r = rid \<longrightarrow> stock r = v)
     (map (\<lambda>r. if idRecord r = rid then r\<lparr>stock := v\<rparr> else r) xs)"
  by (induction xs) simp_all

lemma with_stock_member:
  "r \<in> set (map (\<lambda>r. if idRecord r = rid then r\<lparr>stock := v\<rparr> else r) xs)
   \<Longrightarrow> idRecord r = rid \<Longrightarrow> stock r = v"
  using with_stock_all [of rid v xs] unfolding list_all_iff by blast

lemma fold_stock:
  assumes "wf s" and "\<forall>e \<in> set evs. fst e = rid" and "evs \<noteq> []"
  shows "wf (fold (\<lambda>e. stockUpdate_next (Some e)) evs s)"
    and "records_of (fold (\<lambda>e. stockUpdate_next (Some e)) evs s)
        = map (\<lambda>r. if idRecord r = rid then r\<lparr>stock := snd (last evs)\<rparr> else r) (records_of s)"
    and "filteredRecords_of (fold (\<lambda>e. stockUpdate_next (Some e)) evs s)
        = map (\<lambda>r. if idRecord r = rid then r\<lparr>stock := snd (last evs)\<rparr> else r) (filteredRecords_of s)"
  using assms
proof (induction evs arbitrary: s)
  case Nil
  { case 1 then show ?case by simp }
  { case 2 then show ?case by simp }
  { case 3 then show ?case by simp }
next
  case (Cons e es)
  { case 1
    obtain ns where e: "e = (rid, ns)" using 1(2) by (cases e) auto
    have wf1: "wf (stockUpdate_next (Some e) s)"
      using stockUpdate_next_props(1) [OF 1(1)] e by simp
    show ?case
    proof (cases "es = []")
      case True then show ?thesis using wf1 by simp
    next
      case False
      have "\<forall>e \<in> set es. fst e = rid" using 1(2) by simp
      from Cons.IH(1) [OF wf1 this False] show ?thesis by simp
    qed }
  { case 2
    obtain ns where e: "e = (rid, ns)" using 2(2) by (cases e) auto
    have wf1: "wf (stockUpdate_next (Some e) s)"
      using stockUpdate_next_props(1) [OF 2(1)] e by simp
    have r1: "records_of (stockUpdate_next (Some e) s)
        = map (\<lambda>r. if idRecord r = rid then r\<lparr>stock := ns\<rparr> else r) (records_of s)"
      using stockUpdate_next_props(4) [OF 2(1)] e by simp
    show ?case
    proof (cases "es = []")
      case True then show ?thesis using r1 e by simp
    next
      case False
      have "\<forall>e \<in> set es. fst e = rid" using 2(2) by simp
      from Cons.IH(2) [OF wf1 this False] show ?thesis
        using False by (simp add: r1 with_stock_twice)
    qed }
  { case 3
    obtain ns where e: "e = (rid, ns)" using 3(2) by (cases e) auto
    have wf1: "wf (stockUpdate_next (Some e) s)"
      using stockUpdate_next_props(1) [OF 3(1)] e by simp
    have r1: "filteredRecords_of (stockUpdate_next (Some e) s)
        = map (\<lambda>r. if idRecord r = rid then r\<lparr>stock := ns\<rparr> else r) (filteredRecords_of s)"
      using stockUpdate_next_props(5) [OF 3(1)] e by simp
    show ?case
    proof (cases "es = []")
      case True then show ?thesis using r1 e by simp
    next
      case False
      have "\<forall>e \<in> set es. fst e = rid" using 3(2) by simp
      from Cons.IH(3) [OF wf1 this False] show ?thesis
        using False by (simp add: r1 with_stock_twice)
    qed }
qed

lemma wf_demo: "wf demo"
  by (simp add: wf_def demo_def)

text \<open>
  C7: an empty stock event changes nothing. Any other event \<open>(recordId, newStock)\<close>
  replaces, in \<open>records\<close> and in \<open>filteredRecords\<close>, each entry whose \<open>idRecord\<close> matches
  by a newly allocated object equal to the old one but for \<open>stock = newStock\<close>, keeps the
  reference of every other entry, and leaves every existing object as it was. After a
  non-empty sequence of events for one \<open>idRecord\<close>, handled in emission order, the
  records with that \<open>idRecord\<close> are the same ones and carry the stock of the last event.
\<close>

theorem stock_event_applied:
  assumes "wf s"
  shows "stockUpdate_next None s = s
    \<and> records_of (stockUpdate_next (Some (recordId, newStock)) s)
        = map (\<lambda>r. if idRecord r = recordId then r\<lparr>stock := newStock\<rparr> else r) (records_of s)
    \<and> filteredRecords_of (stockUpdate_next (Some (recordId, newStock)) s)
        = map (\<lambda>r. if idRecord r = recordId then r\<lparr>stock := newStock\<rparr> else r) (filteredRecords_of s)
    \<and> (\<forall>i < length (arrs (store s) (records s)).
          if idRecord (objs (store s) (arrs (store s) (records s) ! i)) = recordId
          then nxt (store s) \<le> arrs (store (stockUpdate_next (Some (recordId, newStock)) s))
                                  (records (stockUpdate_next (Some (recordId, newStock)) s)) ! i
          else arrs (store (stockUpdate_next (Some (recordId, newStock)) s))
                 (records (stockUpdate_next (Some (recordId, newStock)) s)) ! i
               = arrs (store s) (records s) ! i)
    \<and> (\<forall>i < length (arrs (store s) (filteredRecords s)).
          if idRecord (objs (store s) (arrs (store s) (filteredRecords s) ! i)) = recordId
          then nxt (store s) \<le> arrs (store (stockUpdate_next (Some (recordId, newStock)) s))
                                  (filteredRecords (stockUpdate_next (Some (recordId, newStock)) s)) ! i
          else arrs (store (stockUpdate_next (Some (recordId, newStock)) s))
                 (filteredRecords (stockUpdate_next (Some (recordId, newStock)) s)) ! i
               = arrs (store s) (filteredRecords s) ! i)
    \<and> (\<forall>a < nxt (store s). objs (store (stockUpdate_next (Some (recordId, newStock)) s)) a = objs (store s) a)
    \<and> (evs \<noteq> [] \<and> (\<forall>e \<in> set evs. fst e = recordId) \<longrightarrow>
         map idRecord (records_of (fold (\<lambda>e. stockUpdate_next (Some e)) evs s)) = map idRecord (records_of s)
         \<and> (\<forall>r \<in> set (records_of (fold (\<lambda>e. stockUpdate_next (Some e)) evs s))
                  \<union> set (filteredRecords_of (fold (\<lambda>e. stockUpdate_next (Some e)) evs s)).
               idRecord r = recordId \<longrightarrow> stock r = snd (last evs)))"
proof -
  note P = stockUpdate_next_props [OF assms, of recordId newStock]
  have none: "stockUpdate_next None s = s" by (simp add: stockUpdate_next_def)
  have seq: "evs \<noteq> [] \<and> (\<forall>e \<in> set evs. fst e = recordId) \<longrightarrow>
         map idRecord (records_of (fold (\<lambda>e. stockUpdate_next (Some e)) evs s)) = map idRecord (records_of s)
         \<and> (\<forall>r \<in> set (records_of (fold (\<lambda>e. stockUpdate_next (Some e)) evs s))
                  \<union> set (filteredRecords_of (fold (\<lambda>e. stockUpdate_next (Some e)) evs s)).
               idRecord r = recordId \<longrightarrow> stock r = snd (last evs))"
  proof (intro impI)
    assume a: "evs \<noteq> [] \<and> (\<forall>e \<in> set evs. fst e = recordId)"
    then have ne: "evs \<noteq> []" and same: "\<forall>e \<in> set evs. fst e = recordId" by simp_all
    note F = fold_stock [OF assms same ne]
    have ids: "map idRecord (records_of (fold (\<lambda>e. stockUpdate_next (Some e)) evs s)) = map idRecord (records_of s)"
      unfolding F(2) by (rule with_stock_ids)
    have "\<forall>r \<in> set (records_of (fold (\<lambda>e. stockUpdate_next (Some e)) evs s)).
            idRecord r = recordId \<longrightarrow> stock r = snd (last evs)"
      unfolding F(2) using with_stock_member by blast
    moreover have "\<forall>r \<in> set (filteredRecords_of (fold (\<lambda>e. stockUpdate_next (Some e)) evs s)).
            idRecord r = recordId \<longrightarrow> stock r = snd (last evs)"
      unfolding F(3) using with_stock_member by blast
    ultimately show "map idRecord (records_of (fold (\<lambda>e. stockUpdate_next (Some e)) evs s)) = map idRecord (records_of s)
         \<and> (\<forall>r \<in> set (records_of (fold (\<lambda>e. stockUpdate_next (Some e)) evs s))
                  \<union> set (filteredRecords_of (fold (\<lambda>e. stockUpdate_next (Some e)) evs s)).
               idRecord r = recordId \<longrightarrow> stock r = snd (last evs))"
      using ids by blast
  qed
  show ?thesis
    by (intro conjI) (rule none P(4) P(5) P(7) P(8) P(6) seq)+
qed

theorem stock_event_applied_witness:
  "wf demo
   \<and> map idRecord (records_of (fold (\<lambda>e. stockUpdate_next (Some e)) [(7, 5), (7, 3)] demo)) = [7, 8]
   \<and> stock (hd (records_of (fold (\<lambda>e. stockUpdate_next (Some e)) [(7, 5), (7, 3)] demo))) = 3
   \<and> map stock (filteredRecords_of (stockUpdate_next (Some (7, 5)) demo)) = [5, 4]"
proof -
  define L where "L = records_of (fold (\<lambda>e. stockUpdate_next (Some e)) [(7, 5), (7, 3)] demo)"
  define L' where "L' = filteredRecords_of (fold (\<lambda>e. stockUpdate_next (Some e)) [(7, 5), (7, 3)] demo)"
  have a: "records_of demo = [record7, record8]" "filteredRecords_of demo = [record7, record8]"
    by (simp_all add: records_of_def filteredRecords_of_def demo_def)
  have b: "idRecord record7 = 7" "idRecord record8 = 8" "stock record8 = 4"
    by (simp_all add: record7_def record8_def)
  note T = stock_event_applied [OF wf_demo, of 7 5 "[(7, 5), (7, 3)]"]
  note T3 = T [THEN conjunct2, THEN conjunct2, THEN conjunct1]
  note T7 = T [THEN conjunct2, THEN conjunct2, THEN conjunct2, THEN conjunct2, THEN conjunct2,
               THEN conjunct2, folded L_def L'_def]
  have pre: "[(7::int, 5::int), (7, 3)] \<noteq> [] \<and> (\<forall>e \<in> set [(7::int, 5::int), (7, 3)]. fst e = 7)"
    by simp
  from T7 pre have ids: "map idRecord L = map idRecord (records_of demo)"
    and st: "\<forall>r \<in> set L \<union> set L'. idRecord r = 7 \<longrightarrow> stock r = snd (last [(7::int, 5::int), (7, 3)])"
    by blast+
  from ids have ids': "map idRecord L = [7, 8]" by (simp add: a b)
  then obtain x y where L: "L = [x, y]" and x: "idRecord x = 7"
    by (auto simp: map_eq_Cons_conv)
  from st L x have "stock x = 3" by simp
  then have hd: "stock (hd L) = 3" using L by simp
  have f: "map stock (filteredRecords_of (stockUpdate_next (Some (7, 5)) demo)) = [5, 4]"
    unfolding T3 by (simp add: a b)
  show ?thesis
    using wf_demo ids' hd f unfolding L_def by blast
qed

section \<open>Array identity after fetches and events\<close>

lemma cart_forEach_frame:
  "nxt (cart_forEach cartItems as h) = nxt h \<and> arrs (cart_forEach cartItems as h) = arrs h"
  by (induction as arbitrary: h) (simp_all add: Let_def)

lemma cart_next_ids:
  "records (cart_next cartItems s) = records s
   \<and> filteredRecords (cart_next cartItems s) = nxt (store s)"
  by (simp add: cart_next_def alloc_arr_def Let_def cart_forEach_frame)

lemma alloc_objs_nxt: "alloc_objs rs h = (as, h') \<Longrightarrow> nxt h \<le> nxt h'"
proof (induction rs arbitrary: h as h')
  case Nil
  then show ?case by simp
next
  case (Cons r rs)
  obtain bs h2 where rec: "alloc_objs rs (snd (alloc_obj r h)) = (bs, h2)" by force
  have "h' = h2" using Cons.prems rec by (simp add: alloc_obj_def split: prod.splits)
  moreover have "nxt (snd (alloc_obj r h)) = Suc (nxt h)" by (simp add: alloc_obj_def)
  ultimately show ?case using Cons.IH [OF rec] by simp
qed

lemma getRecords_groups_next_ids:
  assumes "getRecords_groups_next cast recordsArray groupsResponse s = Inr (s', calls)"
  shows "nxt (store s) \<le> records s' \<and> nxt (store s) \<le> filteredRecords s' \<and> calls = []"
proof -
  obtain ps where ps: "mapE (processRecord (getRecords_groups groupsResponse)) recordsArray = Inr ps"
    using assms by (auto simp: getRecords_groups_next_def split: sum.splits)
  obtain refs h1 where al: "alloc_objs (map cast ps) (store s) = (refs, h1)" by force
  have "s' = s\<lparr>records := nxt h1, filteredRecords := Suc (nxt h1),
          store := h1\<lparr>arrs := (arrs h1)(nxt h1 := refs, Suc (nxt h1) := refs), nxt := Suc (Suc (nxt h1))\<rparr>\<rparr>"
    and "calls = []"
    using assms ps al by (auto simp: getRecords_groups_next_def alloc_arr_def)
  then show ?thesis using alloc_objs_nxt [OF al] by simp
qed

lemma find_group_total:
  "list_all (\<lambda>v. \<not> nullish v) gs \<Longrightarrow>
   find_group gid gs = Inr (find (\<lambda>g. strict_eq (read_prop g ''idGroup'') gid) gs)"
proof (induction gs)
  case Nil
  then show ?case by simp
next
  case (Cons g gs)
  then have "read_propE g ''idGroup'' = Inr (read_prop g ''idGroup'')"
    by (cases g) (simp_all add: nullish_def)
  then show ?case using Cons by simp
qed

lemma processRecord_total:
  assumes "\<not> nullish r" and "list_all (\<lambda>v. \<not> nullish v) gs"
  shows "\<exists>p. processRecord gs r = Inr p"
  using assms
  by (simp add: processRecord_def Let_def find_group_total split: option.splits)

lemma mapE_total:
  "list_all (\<lambda>x. \<exists>y. f x = Inr y) xs \<Longrightarrow> \<exists>ys. mapE f xs = Inr ys"
  by (induction xs) auto

lemma getRecords_groups_next_total:
  assumes "list_all (\<lambda>v. \<not> nullish v) recordsArray"
    and "list_all (\<lambda>v. \<not> nullish v) (getRecords_groups groupsResponse)"
  shows "\<exists>s'. getRecords_groups_next cast recordsArray groupsResponse s = Inr (s', [])"
proof -
  have "list_all (\<lambda>x. \<exists>y. processRecord (getRecords_groups groupsResponse) x = Inr y) recordsArray"
    using assms processRecord_total by (auto simp: list_all_iff)
  then obtain ps where "mapE (processRecord (getRecords_groups groupsResponse)) recordsArray = Inr ps"
    using mapE_total by blast
  then show ?thesis
    by (simp add: getRecords_groups_next_def split: prod.splits)
qed

text \<open>
  C3, as stated, fails: the cart subscriber updates the record objects in place and
  assigns only \<open>filteredRecords\<close>, so after a cart event \<open>records\<close> is the same array.
\<close>

theorem cart_event_keeps_records_array:
  "wf demo \<and> records (cart_next [\<lparr>item_idRecord = 7, item_amount = Some 2\<rparr>] demo) = records demo"
  using wf_demo cart_next_ids by simp

text \<open>
  C3, amended: after a stock event with a payload both \<open>records\<close> and \<open>filteredRecords\<close>
  are new arrays, and so they are after every fetch completion (the \<open>next\<close> continuation
  of the nested group fetch returning, which it does whenever no entry of the record
  list or of the group list is \<open>null\<close> or \<open>undefined\<close>). After a cart event
  \<open>filteredRecords\<close> is a new array and \<open>records\<close> is the array it was. A stock emission
  with an empty payload leaves both arrays as they were.
\<close>

theorem array_identity_after_events:
  assumes "wf s"
  shows "(records (stockUpdate_next (Some (recordId, newStock)) s) \<noteq> records s
          \<and> filteredRecords (stockUpdate_next (Some (recordId, newStock)) s) \<noteq> filteredRecords s)
    \<and> (records (stockUpdate_next None s) = records s
          \<and> filteredRecords (stockUpdate_next None s) = filteredRecords s)
    \<and> (records (cart_next cartItems s) = records s
          \<and> filteredRecords (cart_next cartItems s) \<noteq> filteredRecords s)
    \<and> (\<forall>s' calls. getRecords_groups_next cast recordsArray groupsResponse s = Inr (s', calls)
          \<longrightarrow> records s' \<noteq> records s \<and> filteredRecords s' \<noteq> filteredRecords s)
    \<and> (list_all (\<lambda>v. \<not> nullish v) recordsArray
          \<and> list_all (\<lambda>v. \<not> nullish v) (getRecords_groups groupsResponse)
          \<longrightarrow> (\<exists>s'. getRecords_groups_next cast recordsArray groupsResponse s = Inr (s', [])))"
proof -
  have lt: "records s < nxt (store s)" "filteredRecords s < nxt (store s)"
    using assms by (simp_all add: wf_def)
  note P = stockUpdate_next_props [OF assms, of recordId newStock]
  have a: "records (stockUpdate_next (Some (recordId, newStock)) s) \<noteq> records s
          \<and> filteredRecords (stockUpdate_next (Some (recordId, newStock)) s) \<noteq> filteredRecords s"
    using P(2) P(3) lt by simp
  have b: "records (stockUpdate_next None s) = records s
          \<and> filteredRecords (stockUpdate_next None s) = filteredRecords s"
    by (simp add: stockUpdate_next_def)
  have c: "records (cart_next cartItems s) = records s
          \<and> filteredRecords (cart_next cartItems s) \<noteq> filteredRecords s"
    using cart_next_ids [of cartItems s] lt by simp
  have d: "\<forall>s' calls. getRecords_groups_next cast recordsArray groupsResponse s = Inr (s', calls)
          \<longrightarrow> records s' \<noteq> records s \<and> filteredRecords s' \<noteq> filteredRecords s"
    using getRecords_groups_next_ids [of cast recordsArray groupsResponse s] lt by fastforce
  have e: "list_all (\<lambda>v. \<not> nullish v) recordsArray
          \<and> list_all (\<lambda>v. \<not> nullish v) (getRecords_groups groupsResponse)
          \<longrightarrow> (\<exists>s'. getRecords_groups_next cast recordsArray groupsResponse s = Inr (s', []))"
    using getRecords_groups_next_total by blast
  show ?thesis using a b c d e by blast
qed

theorem array_identity_after_events_witness:
  "wf demo
   \<and> records (stockUpdate_next (Some (7, 5)) demo) \<noteq> records demo
   \<and> filteredRecords (stockUpdate_next (Some (7, 5)) demo) \<noteq> filteredRecords demo
   \<and> records (cart_next [] demo) = records demo
   \<and> filteredRecords (cart_next [] demo) \<noteq> filteredRecords demo
   \<and> records (fst (projr (getRecords_groups_next (\<lambda>v. record8)
         [JObj [(''idRecord'', JNum 1), (''titleRecord'', JStr ''A''), (''groupId'', JNum 9), (''stock'', JNum 2)]]
         (values_wrapper [rock]) demo))) \<noteq> records demo"
proof -
  let ?ra = "[JObj [(''idRecord'', JNum 1), (''titleRecord'', JStr ''A''), (''groupId'', JNum 9), (''stock'', JNum 2)]]"
  note T = array_identity_after_events [OF wf_demo, of 7 5 "[]" "\<lambda>v. record8" ?ra "values_wrapper [rock]"]
  have pre: "list_all (\<lambda>v. \<not> nullish v) ?ra
          \<and> list_all (\<lambda>v. \<not> nullish v) (getRecords_groups (values_wrapper [rock]))"
    by (simp add: nullish_def getRecords_groups_def values_wrapper_def rock_def)
  from T pre obtain s' where s': "getRecords_groups_next (\<lambda>v. record8) ?ra (values_wrapper [rock]) demo = Inr (s', [])"
    by blast
  with T have "records s' \<noteq> records demo" by blast
  then have "records (fst (projr (getRecords_groups_next (\<lambda>v. record8) ?ra (values_wrapper [rock]) demo))) \<noteq> records demo"
    by (simp add: s')
  then show ?thesis using T wf_demo by blast
qed

lemma demo_objs: "objs (store demo) 0 = record7" "objs (store demo) (Suc 0) = record8"
  "arrs (store demo) (records demo) = [0, 1]" "nxt (store demo) = 4"
  by (simp_all add: demo_def)

section \<open>Cart mutations\<close>

lemma round_to_double_exact: "\<bar>m\<bar> \<le> 2 ^ 53 \<Longrightarrow> round_to_double m = m"
  by (simp add: round_to_double_def)

lemma js_add_exact: "- (2 ^ 53) \<le> a \<Longrightarrow> a < 2 ^ 53 \<Longrightarrow> js_add a 1 = a + 1"
  unfolding js_add_def by (rule round_to_double_exact) simp

lemma bit_length_bounds:
  "2 ^ k \<le> n \<Longrightarrow> n < 2 ^ Suc k \<Longrightarrow> bit_length n = Suc k"
proof (induction k arbitrary: n)
  case 0
  then have "n = 1" by simp
  then show ?case by simp
next
  case (Suc k)
  have "(0::nat) < 2 ^ Suc k" by simp
  then have n0: "n \<noteq> 0" using Suc.prems(1) by linarith
  have lo: "2 ^ k \<le> n div 2" using Suc.prems(1) by simp
  have hi: "n div 2 < 2 ^ Suc k" using Suc.prems(2) by simp
  have "bit_length n = Suc (bit_length (n div 2))"
    using n0 by (subst bit_length.simps) simp
  then show ?case using Suc.IH [OF lo hi] by simp
qed

lemma js_add_rounds: "js_add (2 ^ 53) 1 = 2 ^ 53"
proof -
  have b: "bit_length (nat \<bar>2 ^ 53 + 1 :: int\<bar>) = 54"
    using bit_length_bounds [of 53 "nat \<bar>2 ^ 53 + 1 :: int\<bar>"] by simp
  have "round_to_double (2 ^ 53 + 1) = 2 ^ 53"
    unfolding round_to_double_def Let_def b by simp
  then show ?thesis by (simp add: js_add_def)
qed

text \<open>
  C1 at the failing input: a record that is not in the cart, a user present. When
  \<open>addToCart\<close> returns, the component is as it was and only the call on the cart service
  has been issued: the record is still not in the cart. It is the success continuation
  that sets \<open>inCart\<close> and changes \<open>amount\<close>.
\<close>

theorem addToCart_not_optimistic:
  "fst (addToCart (Some ''ana@example.org'') 1 demo) = demo
   \<and> snd (addToCart (Some ''ana@example.org'') 1 demo) = [CartService_addToCart 1]
   \<and> inCart (objs (store demo) 1) = None
   \<and> amount (objs (store demo) 1) = None
   \<and> inCart (objs (store (fst (addToCart_resolve (Next ()) 1 demo))) 1) = Some True
   \<and> amount (objs (store (fst (addToCart_resolve (Next ()) 1 demo))) 1) = Some 1"
  by (simp add: addToCart_def no_email_def addToCart_resolve_def subscribe_def addToCart_next_def
      alloc_arr_def Let_def demo_objs record8_def or_0_def js_add_def round_to_double_def)

text \<open>
  C2: when the \<open>addToCart\<close> call fails, the record ends with \<open>inCart = false\<close> and
  \<open>amount = 0\<close> whatever its amount was; when the \<open>removeFromCart\<close> call fails,
  \<open>inCart\<close> is set to true and the record's amount becomes the double \<open>amount + 1\<close>, which
  is the amount incremented by 1 for every amount of magnitude below \<open>2^53\<close>, so that a
  record with amount 1 ends with amount 2 in the cart.
\<close>

theorem cart_failure_rollbacks:
  "addToCart_resolve (Error e) record s = addToCart_error record s
   \<and> inCart (objs (store (fst (addToCart_error record s))) record) = Some False
   \<and> amount (objs (store (fst (addToCart_error record s))) record) = Some 0
   \<and> removeFromCart_resolve (Error e) record s = removeFromCart_error record s
   \<and> inCart (objs (store (fst (removeFromCart_error record s))) record) = Some True
   \<and> amount (objs (store (fst (removeFromCart_error record s))) record)
       = Some (js_add (or_0 (amount (objs (store s) record))) 1)
   \<and> (- (2 ^ 53) \<le> or_0 (amount (objs (store s) record))
        \<and> or_0 (amount (objs (store s) record)) < 2 ^ 53
        \<longrightarrow> amount (objs (store (fst (removeFromCart_error record s))) record)
            = Some (or_0 (amount (objs (store s) record)) + 1))
   \<and> (amount (objs (store s) record) = Some 1
        \<longrightarrow> amount (objs (store (fst (removeFromCart_error record s))) record) = Some 2)"
proof -
  have a: "addToCart_resolve (Error e) record s = addToCart_error record s"
    and b: "removeFromCart_resolve (Error e) record s = removeFromCart_error record s"
    by (simp_all add: addToCart_resolve_def removeFromCart_resolve_def subscribe_def)
  have c: "inCart (objs (store (fst (addToCart_error record s))) record) = Some False"
    and d: "amount (objs (store (fst (addToCart_error record s))) record) = Some 0"
    by (simp_all add: addToCart_error_def alloc_arr_def Let_def)
  have f: "inCart (objs (store (fst (removeFromCart_error record s))) record) = Some True"
    and g: "amount (objs (store (fst (removeFromCart_error record s))) record)
       = Some (js_add (or_0 (amount (objs (store s) record))) 1)"
    by (simp_all add: removeFromCart_error_def alloc_arr_def Let_def)
  have h: "- (2 ^ 53) \<le> or_0 (amount (objs (store s) record))
        \<and> or_0 (amount (objs (store s) record)) < 2 ^ 53
        \<longrightarrow> amount (objs (store (fst (removeFromCart_error record s))) record)
            = Some (or_0 (amount (objs (store s) record)) + 1)"
    unfolding g using js_add_exact by simp
  have i: "amount (objs (store s) record) = Some 1
        \<longrightarrow> amount (objs (store (fst (removeFromCart_error record s))) record) = Some 2"
    unfolding g by (simp add: or_0_def js_add_def round_to_double_def)
  show ?thesis using a b c d f g h i by blast
qed

theorem cart_failure_rollbacks_witness:
  "snd (removeFromCart (Some ''ana@example.org'') 0 demo) = [CartService_removeFromCart 0]
   \<and> amount (objs (store demo) 0) = Some 1
   \<and> amount (objs (store (fst (removeFromCart_resolve (Error (Transport JNull)) 0 demo))) 0) = Some 2
   \<and> inCart (objs (store (fst (removeFromCart_resolve (Error (Transport JNull)) 0 demo))) 0) = Some True
   \<and> amount (objs (store (fst (addToCart_resolve (Error (Transport JNull)) 0 demo))) 0) = Some 0
   \<and> inCart (objs (store (fst (addToCart_resolve (Error (Transport JNull)) 0 demo))) 0) = Some False"
proof -
  have p: "snd (removeFromCart (Some ''ana@example.org'') 0 demo) = [CartService_removeFromCart 0]"
    and q: "amount (objs (store demo) 0) = Some 1"
    by (simp_all add: removeFromCart_def no_email_def demo_objs record7_def)
  note T = cart_failure_rollbacks [of "Transport JNull" 0 demo]
  from T q have "amount (objs (store (fst (removeFromCart_error 0 demo))) 0) = Some 2" by blast
  then show ?thesis using T p q by simp
qed

section \<open>Reporting of transport errors\<close>










section \<open>The search filter\<close>












section \<open>Resolution of group names\<close>

lemma read_propE_defined: "\<not> nullish x \<Longrightarrow> read_propE x k = Inr (read_prop x k)"
  by (cases x) (simp_all add: nullish_def)

lemma read_propE_throws: "nullish x \<Longrightarrow> read_propE x k = Inl TypeError"
  by (cases x) (simp_all add: nullish_def)

lemma find_group_found:
  assumes "list_all (\<lambda>x. \<not> nullish x \<and> \<not> strict_eq (read_prop x ''idGroup'') gid) pre"
    and "\<not> nullish g" and "strict_eq (read_prop g ''idGroup'') gid"
  shows "find_group gid (pre @ g # post) = Inr (Some g)"
  using assms by (induction pre) (simp_all add: read_propE_defined)

lemma find_group_throws:
  assumes "list_all (\<lambda>x. \<not> nullish x \<and> \<not> strict_eq (read_prop x ''idGroup'') gid) pre"
    and "nullish g"
  shows "find_group gid (pre @ g # post) = Inl TypeError"
  using assms by (induction pre) (simp_all add: read_propE_defined read_propE_throws)

lemma find_group_none:
  assumes "list_all (\<lambda>x. \<not> nullish x \<and> \<not> strict_eq (read_prop x ''idGroup'') gid) gs"
  shows "find_group gid gs = Inr None"
  using assms by (induction gs) (simp_all add: read_propE_defined)

lemma matching_group_truthy:
  assumes "truthy gid" and "strict_eq (read_prop g ''idGroup'') gid"
  shows "truthy g"
  using assms by (cases g) auto

lemma js_or_null: "js_or v JNull \<noteq> JNull \<longleftrightarrow> truthy v"
  by (cases v) (simp_all add: js_or_def)

lemma js_or_truthy: "truthy v \<Longrightarrow> js_or v d = v"
  by (simp add: js_or_def)

lemma truthy_not_null [simp]: "truthy v \<Longrightarrow> v \<noteq> JNull"
  by auto

text \<open>
  C9, as stated, fails twice. A group list holding \<open>null\<close> makes the resolution throw
  for a record with a \<open>groupId\<close>, where the claim says the empty string and no exception.
  And a record whose \<open>groupId\<close> is 0 gets the empty string although a group with
  \<open>idGroup\<close> 0 is in the list.
\<close>

theorem group_name_counterexample:
  "processRecord [JNull] (JObj [(''idRecord'', JNum 1), (''groupId'', JNum 5)]) = Inl TypeError
   \<and> read_prop
        (projr (processRecord [JObj [(''idGroup'', JNum 0), (''nameGroup'', JStr ''Rock'')]]
                  (JObj [(''idRecord'', JNum 1), (''groupId'', JNum 0)])))
        ''groupName'' = JStr []"
  by (simp add: processRecord_def nullish_def js_or_def)

text \<open>
  C9, amended: for a record that is \<open>null\<close> or \<open>undefined\<close> the callback throws. For any
  other record: when the fetched \<open>groupId\<close> is absent or falsy (missing, \<open>null\<close>, 0, the
  empty string), the processed record has \<open>groupId\<close> \<open>null\<close> and the empty string in
  \<open>groupName\<close> and \<open>nameGroup\<close>, whatever the group list. Otherwise the group list is
  searched in order for an entry whose \<open>idGroup\<close> is strictly equal to the \<open>groupId\<close>:
  when no entry is \<open>null\<close> or \<open>undefined\<close> and none matches, both names are the empty
  string; when the first match is reached before any \<open>null\<close> or \<open>undefined\<close> entry, both
  names are that group's \<open>nameGroup\<close>, or the empty string when that is falsy; when a
  \<open>null\<close> or \<open>undefined\<close> entry is reached before any match, the callback throws.
\<close>

theorem group_name_resolution:
  "(nullish record \<longrightarrow> processRecord grps record = Inl TypeError)
   \<and> (\<not> nullish record \<and> \<not> truthy (read_prop record ''groupId'') \<longrightarrow>
        (\<exists>p. processRecord grps record = Inr p
           \<and> read_prop p ''groupId'' = JNull
           \<and> read_prop p ''groupName'' = JStr []
           \<and> read_prop p ''nameGroup'' = JStr []))
   \<and> (\<not> nullish record \<and> truthy (read_prop record ''groupId'') \<longrightarrow>
        (list_all (\<lambda>x. \<not> nullish x
                      \<and> \<not> strict_eq (read_prop x ''idGroup'') (read_prop record ''groupId'')) grps
          \<longrightarrow> (\<exists>p. processRecord grps record = Inr p
                 \<and> read_prop p ''groupId'' = read_prop record ''groupId''
                 \<and> read_prop p ''groupName'' = JStr []
                 \<and> read_prop p ''nameGroup'' = JStr []))
        \<and> (\<forall>pre g post.
              grps = pre @ g # post
              \<and> list_all (\<lambda>x. \<not> nullish x
                      \<and> \<not> strict_eq (read_prop x ''idGroup'') (read_prop record ''groupId'')) pre
              \<and> \<not> nullish g
              \<and> strict_eq (read_prop g ''idGroup'') (read_prop record ''groupId'')
              \<longrightarrow> (\<exists>p. processRecord grps record = Inr p
                     \<and> read_prop p ''groupId'' = read_prop record ''groupId''
                     \<and> read_prop p ''groupName''
                         = (if truthy (read_prop g ''nameGroup'') then read_prop g ''nameGroup''
                            else JStr [])
                     \<and> read_prop p ''nameGroup'' = read_prop p ''groupName''))
        \<and> (\<forall>pre g post.
              grps = pre @ g # post
              \<and> list_all (\<lambda>x. \<not> nullish x
                      \<and> \<not> strict_eq (read_prop x ''idGroup'') (read_prop record ''groupId'')) pre
              \<and> nullish g
              \<longrightarrow> processRecord grps record = Inl TypeError))"
proof -
  have A: "nullish record \<longrightarrow> processRecord grps record = Inl TypeError"
    by (simp add: processRecord_def)
  have B: "\<not> nullish record \<and> \<not> truthy (read_prop record ''groupId'') \<longrightarrow>
        (\<exists>p. processRecord grps record = Inr p
           \<and> read_prop p ''groupId'' = JNull
           \<and> read_prop p ''groupName'' = JStr []
           \<and> read_prop p ''nameGroup'' = JStr [])"
    by (simp add: processRecord_def Let_def js_or_null) (simp add: js_or_def)
  have C: "list_all (\<lambda>x. \<not> nullish x
                      \<and> \<not> strict_eq (read_prop x ''idGroup'') (read_prop record ''groupId'')) grps
          \<longrightarrow> (\<exists>p. processRecord grps record = Inr p
                 \<and> read_prop p ''groupId'' = read_prop record ''groupId''
                 \<and> read_prop p ''groupName'' = JStr []
                 \<and> read_prop p ''nameGroup'' = JStr [])"
    if r: "\<not> nullish record" "truthy (read_prop record ''groupId'')"
    using r by (auto simp: processRecord_def Let_def js_or_null js_or_truthy find_group_none)
  have D: "\<exists>p. processRecord grps record = Inr p
                     \<and> read_prop p ''groupId'' = read_prop record ''groupId''
                     \<and> read_prop p ''groupName''
                         = (if truthy (read_prop g ''nameGroup'') then read_prop g ''nameGroup''
                            else JStr [])
                     \<and> read_prop p ''nameGroup'' = read_prop p ''groupName''"
    if r: "\<not> nullish record" "truthy (read_prop record ''groupId'')"
      and g: "grps = pre @ g # post"
        "list_all (\<lambda>x. \<not> nullish x
                      \<and> \<not> strict_eq (read_prop x ''idGroup'') (read_prop record ''groupId'')) pre"
        "\<not> nullish g" "strict_eq (read_prop g ''idGroup'') (read_prop record ''groupId'')"
    for pre g post
  proof -
    have f: "find_group (read_prop record ''groupId'') grps = Inr (Some g)"
      unfolding g(1) using g(2,3,4) by (rule find_group_found)
    have t: "truthy g" using r(2) g(4) by (rule matching_group_truthy)
    show ?thesis
      using r f t by (auto simp: processRecord_def Let_def js_or_null js_or_truthy js_or_def)
  qed
  have E: "processRecord grps record = Inl TypeError"
    if r: "\<not> nullish record" "truthy (read_prop record ''groupId'')"
      and g: "grps = pre @ g # post"
        "list_all (\<lambda>x. \<not> nullish x
                      \<and> \<not> strict_eq (read_prop x ''idGroup'') (read_prop record ''groupId'')) pre"
        "nullish g"
    for pre g post
  proof -
    have f: "find_group (read_prop record ''groupId'') grps = Inl TypeError"
      unfolding g(1) using g(2,3) by (rule find_group_throws)
    show ?thesis
      using r f by (auto simp: processRecord_def Let_def js_or_null js_or_truthy)
  qed
  show ?thesis
    using A B C D E by blast
qed

theorem group_name_resolution_witness:
  "\<not> nullish fetched_record \<and> truthy (read_prop fetched_record ''groupId'')
   \<and> read_prop (projr (processRecord [rock] fetched_record)) ''groupName'' = JStr ''Rock''
   \<and> read_prop (projr (processRecord [rock] fetched_record)) ''nameGroup'' = JStr ''Rock''
   \<and> processRecord [JNull, rock] fetched_record = Inl TypeError
   \<and> read_prop
        (projr (processRecord [JObj [(''idGroup'', JStr ''9''), (''nameGroup'', JStr ''Rock'')]]
                  (JObj [(''idRecord'', JNum 1), (''groupId'', JStr ''9'')])))
        ''groupName'' = JStr ''Rock''"
proof -
  have h: "\<not> nullish fetched_record" "truthy (read_prop fetched_record ''groupId'')"
    by (simp_all add: nullish_def fetched_record_def)
  have m: "[rock] = [] @ rock # []" "\<not> nullish rock"
    "strict_eq (read_prop rock ''idGroup'') (read_prop fetched_record ''groupId'')"
    "list_all (\<lambda>x. \<not> nullish x
        \<and> \<not> strict_eq (read_prop x ''idGroup'') (read_prop fetched_record ''groupId'')) []"
    "read_prop rock ''nameGroup'' = JStr ''Rock''"
    by (simp_all add: nullish_def rock_def fetched_record_def)
  have n: "[JNull, rock] = [] @ JNull # [rock]" "nullish JNull"
    by (simp_all add: nullish_def)
  note T = group_name_resolution [of fetched_record "[rock]"]
  note U = group_name_resolution [of fetched_record "[JNull, rock]"]
  from T h m obtain p where p: "processRecord [rock] fetched_record = Inr p"
    and gn: "read_prop p ''groupName''
              = (if truthy (read_prop rock ''nameGroup'') then read_prop rock ''nameGroup'' else JStr [])"
    and ng: "read_prop p ''nameGroup'' = read_prop p ''groupName''"
    by blast
  from gn m(5) have 1: "read_prop p ''groupName'' = JStr ''Rock''" by simp
  from U h n m(4) have 2: "processRecord [JNull, rock] fetched_record = Inl TypeError"
    by blast
  have 3: "read_prop
        (projr (processRecord [JObj [(''idGroup'', JStr ''9''), (''nameGroup'', JStr ''Rock'')]]
                  (JObj [(''idRecord'', JNum 1), (''groupId'', JStr ''9'')])))
        ''groupName'' = JStr ''Rock''"
    by (simp add: processRecord_def nullish_def js_or_def)
  show ?thesis using h p 1 ng 2 3 by simp
qed

end
